theory Spec2Isabelle
  imports Complex_Main "HOL-Library.Sublist"
begin

section \<open>Python values used by the samples\<close>

text \<open>
  Strings are lists of characters. \<open>str.upper\<close> and \<open>str.lower\<close> are modelled on
  ASCII text, where Python maps character by character: the letters \<open>a\<close>-\<open>z\<close>
  (codes 97-122) and \<open>A\<close>-\<open>Z\<close> (codes 65-90) differ by 32 and every other ASCII
  character is kept. \<open>text[::-1]\<close> is \<open>rev\<close>, and \<open>sub in s\<close> on strings is
  \<open>sublist sub s\<close> (a contiguous occurrence).
\<close>

definition upper_char :: "char \<Rightarrow> char" where
  "upper_char c =
     (let n = (of_char c :: nat) in if 97 \<le> n \<and> n \<le> 122 then char_of (n - 32) else c)"

definition lower_char :: "char \<Rightarrow> char" where
  "lower_char c =
     (let n = (of_char c :: nat) in if 65 \<le> n \<and> n \<le> 90 then char_of (n + 32) else c)"

definition py_upper :: "string \<Rightarrow> string" where
  "py_upper s = map upper_char s"

definition py_lower :: "string \<Rightarrow> string" where
  "py_lower s = map lower_char s"

text \<open>\<open>sep.join(parts)\<close>.\<close>

fun join :: "string \<Rightarrow> string list \<Rightarrow> string" where
  "join sep [] = []"
| "join sep [p] = p"
| "join sep (p # q # ps) = p @ sep @ join sep (q # ps)"

text \<open>The exceptions the samples raise or let through.\<close>

datatype exn =
    RuntimeError string
  | ValidationError
  | TypeError
  | ConfigurationError string
  | ExternalError string

datatype role = USER | ASSISTANT | SYSTEM | TOOL

record chat_message =
  msg_role :: role
  msg_text :: string

section \<open>The workflow core\<close>

text \<open>
  Modelled from the spec: the executor, edge, graph builder and scheduler of the
  \<open>agent_framework\<close> package (\<open>Executor\<close>, \<open>WorkflowBuilder\<close>, \<open>WorkflowContext\<close>,
  \<open>workflow.run\<close>, \<open>AgentExecutor\<close>), which the samples import and which is not part of
  the sources. The definitions of this section follow sections 3 and 4 of the design: a
  handler maps an input message to its effects (\<open>send\<close> and \<open>yield_output\<close> calls, in
  order) or raises; a message sent is queued for the target of every outgoing edge whose
  condition accepts it; pending work is served first in, first out; the run ends idle
  when nothing is pending and fails when a handler raises.
\<close>

datatype message =
    StrMessage string
  | AgentExecutorRequest "chat_message list" bool
  | AgentExecutorResponse string

datatype effect = SendMessage message | YieldOutput string

type_synonym handler = "message \<Rightarrow> exn + effect list"

type_synonym edge_condition = "message \<Rightarrow> exn + bool"

record edge =
  source :: string
  target :: string
  cond :: "edge_condition option"

record workflow_builder =
  b_executors :: "(string \<times> handler) list"
  b_edges :: "edge list"
  b_start :: "string option"

record workflow =
  executors :: "(string \<times> handler) list"
  edges :: "edge list"
  start :: string

datatype event =
    ExecutorStarted string
  | ExecutorCompleted string
  | ExecutorFailed string exn
  | MessageDelivered string string message
  | OutputYielded string string

datatype final_state = IDLE | FAILED

record run_state =
  pending :: "(string \<times> message) list"
  events :: "event list"
  outputs :: "string list"

record run_result =
  r_events :: "event list"
  r_outputs :: "string list"
  r_final_state :: final_state

definition WorkflowBuilder :: workflow_builder where
  "WorkflowBuilder = \<lparr>b_executors = [], b_edges = [], b_start = None\<rparr>"

definition register :: "string \<times> handler \<Rightarrow> (string \<times> handler) list \<Rightarrow> (string \<times> handler) list" where
  "register ex exs = (if fst ex \<in> set (map fst exs) then exs else exs @ [ex])"

definition add_edge ::
  "string \<times> handler \<Rightarrow> string \<times> handler \<Rightarrow> edge_condition option \<Rightarrow> workflow_builder \<Rightarrow> workflow_builder" where
  "add_edge src tgt c b =
     b\<lparr>b_executors := register tgt (register src (b_executors b)),
       b_edges := b_edges b @ [\<lparr>source = fst src, target = fst tgt, cond = c\<rparr>]\<rparr>"

definition set_start_executor :: "string \<times> handler \<Rightarrow> workflow_builder \<Rightarrow> workflow_builder" where
  "set_start_executor ex b =
     b\<lparr>b_executors := register ex (b_executors b), b_start := Some (fst ex)\<rparr>"

definition build :: "workflow_builder \<Rightarrow> exn + workflow" where
  "build b =
     (case b_start b of
        None \<Rightarrow> Inl (ConfigurationError ''no start executor'')
      | Some s \<Rightarrow>
          if list_all (\<lambda>e. source e \<in> set (map fst (b_executors b))
                           \<and> target e \<in> set (map fst (b_executors b))) (b_edges b)
          then Inr \<lparr>executors = b_executors b, edges = b_edges b, start = s\<rparr>
          else Inl (ConfigurationError ''dangling edge''))"

text \<open>
  An edge accepts a message when it has no condition or its condition returns true; a
  condition that raises does not fire the edge (the fail-closed default of section 7).
\<close>

definition accepts :: "edge \<Rightarrow> message \<Rightarrow> bool" where
  "accepts e m =
     (case cond e of
        None \<Rightarrow> True
      | Some c \<Rightarrow> (case c m of Inl err \<Rightarrow> False | Inr b \<Rightarrow> b))"

definition targets :: "workflow \<Rightarrow> string \<Rightarrow> message \<Rightarrow> string list" where
  "targets g src m = map target (filter (\<lambda>e. source e = src \<and> accepts e m) (edges g))"

fun apply_effect :: "workflow \<Rightarrow> string \<Rightarrow> run_state \<Rightarrow> effect \<Rightarrow> run_state" where
  "apply_effect g src s (SendMessage m) =
     s\<lparr>pending := pending s @ map (\<lambda>t. (t, m)) (targets g src m),
       events := events s @ map (\<lambda>t. MessageDelivered src t m) (targets g src m)\<rparr>"
| "apply_effect g src s (YieldOutput v) =
     s\<lparr>events := events s @ [OutputYielded src v], outputs := outputs s @ [v]\<rparr>"

definition finish :: "final_state \<Rightarrow> run_state \<Rightarrow> run_result" where
  "finish st s = \<lparr>r_events = events s, r_outputs = outputs s, r_final_state = st\<rparr>"

text \<open>
  One step: the oldest pending pair is taken, its executor's handler runs, and its
  effects are applied in order. A handler that raises (or a message for an executor the
  graph does not have) aborts the run, keeping the trace and the outputs so far.
\<close>

definition step :: "workflow \<Rightarrow> string \<Rightarrow> message \<Rightarrow> run_state \<Rightarrow> run_result + run_state" where
  "step g ex m s =
     (let s1 = s\<lparr>events := events s @ [ExecutorStarted ex]\<rparr> in
      case map_of (executors g) ex of
        None \<Rightarrow> Inl (finish FAILED (s1\<lparr>events := events s1 @ [ExecutorFailed ex TypeError]\<rparr>))
      | Some h \<Rightarrow>
          (case h m of
             Inl err \<Rightarrow> Inl (finish FAILED (s1\<lparr>events := events s1 @ [ExecutorFailed ex err]\<rparr>))
           | Inr effs \<Rightarrow>
               (let s2 = foldl (apply_effect g ex) s1 effs
                in Inr (s2\<lparr>events := events s2 @ [ExecutorCompleted ex]\<rparr>))))"

text \<open>
  The scheduler loop. A graph may have cycles, so the loop need not end: not returning
  is the value \<open>None\<close>.
\<close>

partial_function (option) run_loop :: "workflow \<Rightarrow> run_state \<Rightarrow> run_result option" where
  "run_loop g s =
     (case pending s of
        [] \<Rightarrow> Some (finish IDLE s)
      | p # rest \<Rightarrow>
          (case step g (fst p) (snd p) (s\<lparr>pending := rest\<rparr>) of
             Inl failed \<Rightarrow> Some failed
           | Inr s' \<Rightarrow> run_loop g s'))"

definition run :: "workflow \<Rightarrow> message \<Rightarrow> run_result option" where
  "run g input = run_loop g \<lparr>pending = [(start g, input)], events = [], outputs = []\<rparr>"

text \<open>
  Handlers are declared for one input type; a message of another type is a handler
  error.
\<close>

definition on_str :: "(string \<Rightarrow> exn + effect list) \<Rightarrow> handler" where
  "on_str h m = (case m of StrMessage s \<Rightarrow> h s | _ \<Rightarrow> Inl TypeError)"

definition on_response :: "(string \<Rightarrow> exn + effect list) \<Rightarrow> handler" where
  "on_response h m = (case m of AgentExecutorResponse t \<Rightarrow> h t | _ \<Rightarrow> Inl TypeError)"

text \<open>
  The agent adapter of section 4.5: on a request that expects a response it runs the
  external agent (a parameter: the reply text, or the failure of the call) and sends a
  response message carrying the reply.
\<close>

definition AgentExecutor :: "(chat_message list \<Rightarrow> exn + string) \<Rightarrow> handler" where
  "AgentExecutor agent m =
     (case m of
        AgentExecutorRequest msgs should_respond \<Rightarrow>
          if should_respond
          then (case agent msgs of
                  Inl err \<Rightarrow> Inl err
                | Inr reply \<Rightarrow> Inr [SendMessage (AgentExecutorResponse reply)])
          else Inr []
      | _ \<Rightarrow> Inl TypeError)"

section \<open>04-workflows/01-basic.py\<close>

text \<open>\<open>UpperCase.to_upper_case\<close>: \<open>result = text.upper(); await ctx.send_message(result)\<close>.\<close>

definition to_upper_case :: "string \<Rightarrow> exn + effect list" where
  "to_upper_case txt = (let result = py_upper txt in Inr [SendMessage (StrMessage result)])"

text \<open>\<open>reverse_text\<close>: \<open>result = text[::-1]; await ctx.yield_output(result)\<close>.\<close>

definition reverse_text :: "string \<Rightarrow> exn + effect list" where
  "reverse_text txt = (let result = rev txt in Inr [YieldOutput result])"

definition upper_case :: "string \<times> handler" where
  "upper_case = (''upper_case_executor'', on_str to_upper_case)"

definition reverse_text_executor :: "string \<times> handler" where
  "reverse_text_executor = (''reverse_text_executor'', on_str reverse_text)"

text \<open>
  \<open>main\<close>: the graph \<open>WorkflowBuilder().add_edge(upper_case, reverse_text)
  .set_start_executor(upper_case).build()\<close>, run on one input.
\<close>

definition basic_main :: "string \<Rightarrow> (exn + run_result) option" where
  "basic_main input =
     (case build (set_start_executor upper_case
                   (add_edge upper_case reverse_text_executor None WorkflowBuilder)) of
        Inl err \<Rightarrow> Some (Inl err)
      | Inr workflow \<Rightarrow> map_option Inr (run workflow (StrMessage input)))"

section \<open>04-workflows/03-control_flow.py\<close>

record DetectionResult =
  is_spam :: bool
  reason :: string
  email_content :: string

record EmailResponse =
  response :: string

text \<open>
  \<open>DetectionResult.model_validate_json\<close> and \<open>EmailResponse.model_validate_json\<close> are
  pydantic's validators: parameters of the model, a function from the JSON text to the
  validated object or to the exception raised.
\<close>

type_synonym 'a validator = "string \<Rightarrow> exn + 'a"

text \<open>
  The inner function \<open>condition\<close> of \<open>get_condition\<close>, with the state it could touch
  passed through: the message object it is given and the rest of the program state. It
  only reads. The \<open>try\<close> block is the inner \<open>case\<close>: every exception of the
  validation is caught and answered with \<open>False\<close>.
\<close>

definition condition ::
  "DetectionResult validator \<Rightarrow> bool \<Rightarrow> message \<times> 'w \<Rightarrow> (exn + bool) \<times> (message \<times> 'w)" where
  "condition model_validate_json expected_result st =
     (case fst st of
        AgentExecutorResponse txt \<Rightarrow>
          (case model_validate_json txt of
             Inr detection \<Rightarrow> (Inr (is_spam detection = expected_result), st)
           | Inl err \<Rightarrow> (Inr False, st))
      | _ \<Rightarrow> (Inr True, st))"

text \<open>\<open>get_condition(expected_result)\<close> returns the predicate the edge holds.\<close>

definition get_condition :: "DetectionResult validator \<Rightarrow> bool \<Rightarrow> message \<Rightarrow> exn + bool" where
  "get_condition model_validate_json expected_result =
     (\<lambda>message. fst (condition model_validate_json expected_result (message, ())))"

text \<open>Whether a message is a classifier response whose text validates.\<close>

definition is_response :: "message \<Rightarrow> bool" where
  "is_response m = (case m of AgentExecutorResponse txt \<Rightarrow> True | _ \<Rightarrow> False)"

definition interpretable :: "DetectionResult validator \<Rightarrow> message \<Rightarrow> bool" where
  "interpretable model_validate_json m =
     (case m of
        AgentExecutorResponse txt \<Rightarrow>
          (case model_validate_json txt of Inr detection \<Rightarrow> True | Inl err \<Rightarrow> False)
      | _ \<Rightarrow> False)"

definition handle_email_response :: "EmailResponse validator \<Rightarrow> string \<Rightarrow> exn + effect list" where
  "handle_email_response model_validate_json txt =
     (case model_validate_json txt of
        Inl err \<Rightarrow> Inl err
      | Inr email_response \<Rightarrow>
          Inr [YieldOutput (''Email sent:'' @ [CHR 0x0A] @ response email_response)])"

definition handle_spam_classifier_response ::
  "DetectionResult validator \<Rightarrow> string \<Rightarrow> exn + effect list" where
  "handle_spam_classifier_response model_validate_json txt =
     (case model_validate_json txt of
        Inl err \<Rightarrow> Inl err
      | Inr detection \<Rightarrow>
          if is_spam detection
          then Inr [YieldOutput (''Email marked as spam: '' @ reason detection)]
          else Inl (RuntimeError ''This executor should only handle spam messages.''))"

definition to_email_assistant_request ::
  "DetectionResult validator \<Rightarrow> string \<Rightarrow> exn + effect list" where
  "to_email_assistant_request model_validate_json txt =
     (case model_validate_json txt of
        Inl err \<Rightarrow> Inl err
      | Inr detection \<Rightarrow>
          (let user_msg = \<lparr>msg_role = USER, msg_text = email_content detection\<rparr>
           in Inr [SendMessage (AgentExecutorRequest [user_msg] True)]))"

text \<open>
  \<open>main\<close>: the two agents are external (parameters), the graph is built in the order of
  the source, and the run starts from a request carrying the email.
\<close>

definition control_flow_builder ::
  "DetectionResult validator \<Rightarrow> EmailResponse validator \<Rightarrow>
   (chat_message list \<Rightarrow> exn + string) \<Rightarrow> (chat_message list \<Rightarrow> exn + string) \<Rightarrow> workflow_builder" where
  "control_flow_builder validate_detection validate_email spam_client email_client =
     (let spam_detection_agent = (''spam_detection_agent'', AgentExecutor spam_client);
          email_assistant_agent = (''email_assistant_agent'', AgentExecutor email_client);
          to_request = (''to_email_assistant_request'',
                        on_response (to_email_assistant_request validate_detection));
          send_email = (''send_email'', on_response (handle_email_response validate_email));
          handle_spam = (''handle_spam'',
                         on_response (handle_spam_classifier_response validate_detection))
      in add_edge spam_detection_agent handle_spam (Some (get_condition validate_detection True))
          (add_edge email_assistant_agent send_email None
            (add_edge to_request email_assistant_agent None
              (add_edge spam_detection_agent to_request
                 (Some (get_condition validate_detection False))
                (set_start_executor spam_detection_agent WorkflowBuilder)))))"

definition control_flow_main ::
  "DetectionResult validator \<Rightarrow> EmailResponse validator \<Rightarrow>
   (chat_message list \<Rightarrow> exn + string) \<Rightarrow> (chat_message list \<Rightarrow> exn + string) \<Rightarrow>
   string \<Rightarrow> (exn + run_result) option" where
  "control_flow_main validate_detection validate_email spam_client email_client email =
     (case build (control_flow_builder validate_detection validate_email spam_client email_client) of
        Inl err \<Rightarrow> Some (Inl err)
      | Inr workflow \<Rightarrow>
          (let request = AgentExecutorRequest [\<lparr>msg_role = USER, msg_text = email\<rparr>] True
           in map_option Inr (run workflow request)))"

text \<open>
  A validator and two agents to instantiate the parameters at concrete inputs: the
  validator knows two classifier replies, one legitimate and one spam, and rejects every
  other text.
\<close>

definition sample_validate :: "DetectionResult validator" where
  "sample_validate txt =
     (if txt = ''legitimate''
      then Inr \<lparr>is_spam = False, reason = ''a follow-up from a colleague'', email_content = ''Hi Sarah''\<rparr>
      else if txt = ''junk''
      then Inr \<lparr>is_spam = True, reason = ''unsolicited offer'', email_content = ''You won''\<rparr>
      else Inl ValidationError)"

definition sample_validate_email :: "EmailResponse validator" where
  "sample_validate_email txt =
     (if txt = ''draft'' then Inr \<lparr>response = ''Hi Alex, thank you.''\<rparr> else Inl ValidationError)"

section \<open>03-extras/04-middleware.py\<close>

record ChatResponse =
  response_messages :: "chat_message list"

record ChatContext =
  messages :: "chat_message list"
  result :: "ChatResponse option"
  terminate :: bool

definition blocked_term :: string where
  "blocked_term = ''bitcoin''"

definition rejection :: ChatResponse where
  "rejection =
     \<lparr>response_messages =
        [\<lparr>msg_role = ASSISTANT, msg_text = ''Sorry, I cannot assist with that request.''\<rparr>]\<rparr>"

text \<open>
  The \<open>for\<close> loop of \<open>security_middleware\<close>: \<open>Some\<close> is the context at the early
  \<open>return\<close>, \<open>None\<close> is the loop running to its end. A message whose text is empty is
  skipped (\<open>if message.text\<close>).
\<close>

fun security_loop :: "chat_message list \<Rightarrow> ChatContext \<Rightarrow> ChatContext option" where
  "security_loop [] context = None"
| "security_loop (message # rest) context =
     (if msg_text message \<noteq> []
      then (let message_lower = py_lower (msg_text message)
            in if sublist blocked_term message_lower
               then Some (context\<lparr>result := Some rejection, terminate := True\<rparr>)
               else security_loop rest context)
      else security_loop rest context)"

text \<open>
  \<open>security_middleware(context, next)\<close>. The continuation may change the context it is
  given. The result is the context at the end and the list of the contexts the
  continuation was invoked with, in order.
\<close>

definition security_middleware ::
  "ChatContext \<Rightarrow> (ChatContext \<Rightarrow> ChatContext) \<Rightarrow> ChatContext \<times> ChatContext list" where
  "security_middleware context next =
     (case security_loop (messages context) context of
        Some blocked \<Rightarrow> (blocked, [])
      | None \<Rightarrow> (next context, [context]))"

section \<open>03-extras/02-chat_message_store.py\<close>

text \<open>
  \<open>ChatMessageStoreState\<close> is the framework's: its \<open>to_dict\<close> and \<open>from_dict\<close>, and
  the truth value Python gives the serialized value, are parameters.
\<close>

record 'b state_codec =
  to_dict :: "chat_message list \<Rightarrow> 'b"
  from_dict :: "'b \<Rightarrow> exn + chat_message list"
  truthy :: "'b \<Rightarrow> bool"

record CustomChatMessageStore =
  store_messages :: "chat_message list"

definition init_store :: "chat_message list option \<Rightarrow> CustomChatMessageStore" where
  "init_store msgs =
     (case msgs of
        None \<Rightarrow> \<lparr>store_messages = []\<rparr>
      | Some ms \<Rightarrow> if ms \<noteq> [] then \<lparr>store_messages = [] @ ms\<rparr> else \<lparr>store_messages = []\<rparr>)"

definition add_messages :: "chat_message list \<Rightarrow> CustomChatMessageStore \<Rightarrow> CustomChatMessageStore" where
  "add_messages msgs store = store\<lparr>store_messages := store_messages store @ msgs\<rparr>"

definition list_messages :: "CustomChatMessageStore \<Rightarrow> chat_message list" where
  "list_messages store = store_messages store"

definition update_from_state ::
  "'b state_codec \<Rightarrow> 'b \<Rightarrow> CustomChatMessageStore \<Rightarrow> exn + CustomChatMessageStore" where
  "update_from_state codec serialized_store_state store =
     (if truthy codec serialized_store_state
      then (case from_dict codec serialized_store_state of
              Inl err \<Rightarrow> Inl err
            | Inr state_messages \<Rightarrow>
                if state_messages \<noteq> []
                then Inr (store\<lparr>store_messages := store_messages store @ state_messages\<rparr>)
                else Inr store)
      else Inr store)"

definition deserialize :: "'b state_codec \<Rightarrow> 'b \<Rightarrow> exn + CustomChatMessageStore" where
  "deserialize codec serialized_store_state =
     (let store = init_store None in update_from_state codec serialized_store_state store)"

definition serialize :: "'b state_codec \<Rightarrow> CustomChatMessageStore \<Rightarrow> 'b" where
  "serialize codec store = to_dict codec (store_messages store)"

text \<open>A codec to instantiate the parameter: the serialized value is the list itself.\<close>

definition list_codec :: "chat_message list state_codec" where
  "list_codec = \<lparr>to_dict = (\<lambda>ms. ms), from_dict = Inr, truthy = (\<lambda>b. True)\<rparr>"

section \<open>01-agent_types/04-local_tools.py and 02-tools_and_mcp/mcp-servers/agent_mcp_server.py\<close>

text \<open>
  The module-level \<open>balance\<close> is the state, passed in and returned. The number type is
  left open (Python computes on floats with the type's own \<open>-\<close> and \<open>+\<close>), and the
  formatting of a number inside an f-string is a parameter.
\<close>

definition initial_balance :: real where
  "initial_balance = 100"

definition get_balance :: "('a \<Rightarrow> string) \<Rightarrow> 'a \<Rightarrow> string" where
  "get_balance fmt balance = ''The balance for is $'' @ fmt balance @ ''.''"

definition make_payment :: "('a::minus \<Rightarrow> string) \<Rightarrow> 'a \<Rightarrow> string \<Rightarrow> 'a \<Rightarrow> string \<times> 'a" where
  "make_payment fmt amount why balance =
     (let balance' = balance - amount
      in (''Processing payment of $'' @ fmt amount @ '' for '' @ why @ ''.'', balance'))"

definition get_loan :: "('a::plus \<Rightarrow> string) \<Rightarrow> 'a \<Rightarrow> 'a \<Rightarrow> string \<times> 'a" where
  "get_loan fmt amount balance =
     (let balance' = balance + amount
      in (''Processing loan request of $'' @ fmt amount @ ''.'', balance'))"

section \<open>The agent run with approval-gated tools\<close>

text \<open>
  Modelled from the spec: the agent runtime's \<open>Agent.run\<close> with tools and their
  \<open>approval_mode\<close> (the \<open>agent_framework\<close> package's agent, \<open>ai_function\<close> and
  function-approval contents), which is not part of the sources. Section 6 of the design:
  a tool may require human approval before execution; approval-gated tools suspend the
  run and surface a user-input-request that must be answered before continuing.
  Section 9: the run returns a paused result carrying the set of outstanding approval
  requests, and resumption re-enters the run with the original input plus the approval
  decisions appended. The language model is a parameter: from the conversation so far it
  either answers in text or calls tools. The state is the module's balance and the log
  of the calls whose tool body ran.
\<close>

datatype approval_mode = always_require | never_require

record 'a function_call =
  call_name :: string
  call_amount :: 'a
  call_reason :: string

record 'a ai_function =
  fn_name :: string
  fn_approval_mode :: approval_mode
  fn_body :: "'a function_call \<Rightarrow> 'a \<Rightarrow> string \<times> 'a"

datatype 'a content =
    TextContent string
  | FunctionApprovalRequestContent "'a function_call"
  | FunctionApprovalResponseContent bool "'a function_call"
  | FunctionResultContent "'a function_call" string

datatype 'a llm_step = Answer string | FunctionCalls "'a function_call list"

record 'a AgentRunResponse =
  response_text :: string
  user_input_requests :: "'a function_call list"

record 'a tool_state =
  st_balance :: 'a
  executed :: "'a function_call list"

text \<open>
  The three tools of \<open>04-local_tools.py\<close> as the run sees them: only \<open>_get_loan\<close> is
  declared with \<open>approval_mode="always_require"\<close>.
\<close>

definition get_balance_tool :: "('a \<Rightarrow> string) \<Rightarrow> 'a ai_function" where
  "get_balance_tool fmt =
     \<lparr>fn_name = ''get_balance'', fn_approval_mode = never_require,
      fn_body = (\<lambda>c b. (get_balance fmt b, b))\<rparr>"

definition make_payment_tool :: "('a::minus \<Rightarrow> string) \<Rightarrow> 'a ai_function" where
  "make_payment_tool fmt =
     \<lparr>fn_name = ''make_payment'', fn_approval_mode = never_require,
      fn_body = (\<lambda>c b. make_payment fmt (call_amount c) (call_reason c) b)\<rparr>"

definition get_loan_tool :: "('a::plus \<Rightarrow> string) \<Rightarrow> 'a ai_function" where
  "get_loan_tool fmt =
     \<lparr>fn_name = ''get_loan'', fn_approval_mode = always_require,
      fn_body = (\<lambda>c b. get_loan fmt (call_amount c) b)\<rparr>"

definition find_tool :: "'a ai_function list \<Rightarrow> string \<Rightarrow> 'a ai_function option" where
  "find_tool tools n = find (\<lambda>t. fn_name t = n) tools"

definition gated :: "'a ai_function list \<Rightarrow> 'a function_call \<Rightarrow> bool" where
  "gated tools c =
     (case find_tool tools (call_name c) of
        None \<Rightarrow> False
      | Some t \<Rightarrow> fn_approval_mode t = always_require)"

definition execute_call ::
  "'a ai_function list \<Rightarrow> 'a function_call \<Rightarrow> 'a tool_state \<Rightarrow> 'a content \<times> 'a tool_state" where
  "execute_call tools c st =
     (case find_tool tools (call_name c) of
        None \<Rightarrow> (FunctionResultContent c ''unknown function'', st)
      | Some t \<Rightarrow>
          (let out = fn_body t c (st_balance st)
           in (FunctionResultContent c (fst out),
               \<lparr>st_balance = snd out, executed = executed st @ [c]\<rparr>)))"

fun execute_calls ::
  "'a ai_function list \<Rightarrow> 'a function_call list \<Rightarrow> 'a tool_state \<Rightarrow> 'a content list \<times> 'a tool_state" where
  "execute_calls tools [] st = ([], st)"
| "execute_calls tools (c # cs) st =
     (let r = execute_call tools c st;
          rs = execute_calls tools cs (snd r)
      in (fst r # fst rs, snd rs))"

text \<open>
  On entry the run applies the approval decisions its input carries: an approved call is
  executed, a rejected one is answered without running the tool.
\<close>

fun apply_approvals ::
  "'a ai_function list \<Rightarrow> 'a content list \<Rightarrow> 'a tool_state \<Rightarrow> 'a content list \<times> 'a tool_state" where
  "apply_approvals tools [] st = ([], st)"
| "apply_approvals tools (FunctionApprovalResponseContent approved c # xs) st =
     (if approved
      then (let r = execute_call tools c st;
                rs = apply_approvals tools xs (snd r)
            in (fst r # fst rs, snd rs))
      else (let rs = apply_approvals tools xs st
            in (FunctionResultContent c ''rejected'' # fst rs, snd rs)))"
| "apply_approvals tools (x # xs) st = apply_approvals tools xs st"

text \<open>
  The model may call tools again and again, so the loop need not end. A batch of calls
  that holds an approval-gated one is not executed: the run returns without text, with
  the gated calls as its pending requests.
\<close>

partial_function (option) agent_loop ::
  "('a content list \<Rightarrow> 'a llm_step) \<Rightarrow> 'a ai_function list \<Rightarrow> 'a content list \<Rightarrow> 'a tool_state
   \<Rightarrow> ('a AgentRunResponse \<times> 'a tool_state) option" where
  "agent_loop llm tools conv st =
     (case llm conv of
        Answer t \<Rightarrow> Some (\<lparr>response_text = t, user_input_requests = []\<rparr>, st)
      | FunctionCalls calls \<Rightarrow>
          if filter (gated tools) calls \<noteq> []
          then Some (\<lparr>response_text = [], user_input_requests = filter (gated tools) calls\<rparr>, st)
          else (let rs = execute_calls tools calls st
                in agent_loop llm tools (conv @ fst rs) (snd rs)))"

definition agent_run ::
  "('a content list \<Rightarrow> 'a llm_step) \<Rightarrow> 'a ai_function list \<Rightarrow> 'a content list \<Rightarrow> 'a tool_state
   \<Rightarrow> ('a AgentRunResponse \<times> 'a tool_state) option" where
  "agent_run llm tools inputs st =
     (let rs = apply_approvals tools inputs st
      in agent_loop llm tools (inputs @ fst rs) (snd rs))"

text \<open>
  The conversation and the state a run has reached after \<open>n\<close> batches of tool calls
  that were all executed; \<open>None\<close> when the loop has returned before.
\<close>

fun advance ::
  "nat \<Rightarrow> ('a content list \<Rightarrow> 'a llm_step) \<Rightarrow> 'a ai_function list \<Rightarrow> 'a content list \<Rightarrow> 'a tool_state
   \<Rightarrow> ('a content list \<times> 'a tool_state) option" where
  "advance 0 llm tools conv st = Some (conv, st)"
| "advance (Suc n) llm tools conv st =
     (case llm conv of
        Answer t \<Rightarrow> None
      | FunctionCalls calls \<Rightarrow>
          if filter (gated tools) calls \<noteq> []
          then None
          else (let rs = execute_calls tools calls st
                in advance n llm tools (conv @ fst rs) (snd rs)))"

text \<open>
  The approval loop of \<open>main\<close> in \<open>04-local_tools.py\<close> (lines 85-128): while the
  result has pending requests, each request is shown and answered from the keyboard
  (\<open>answers\<close>, one line per request; running out of lines is the \<open>EOFError\<close> of
  \<open>input\<close>), and the agent runs again on the query followed by each request and its
  answer.
\<close>

fun collect_approvals ::
  "'a function_call list \<Rightarrow> string list \<Rightarrow> exn + ('a content list \<times> string list)" where
  "collect_approvals [] answers = Inr ([], answers)"
| "collect_approvals (user_input_needed # reqs) [] = Inl (ExternalError ''EOFError'')"
| "collect_approvals (user_input_needed # reqs) (user_approval # answers) =
     (case collect_approvals reqs answers of
        Inl err \<Rightarrow> Inl err
      | Inr got \<Rightarrow>
          Inr ([FunctionApprovalRequestContent user_input_needed,
                FunctionApprovalResponseContent (py_lower user_approval = ''y'') user_input_needed]
               @ fst got, snd got))"

partial_function (option) approval_loop ::
  "('a content list \<Rightarrow> 'a tool_state \<Rightarrow> ('a AgentRunResponse \<times> 'a tool_state) option) \<Rightarrow> string
   \<Rightarrow> 'a AgentRunResponse \<Rightarrow> 'a tool_state \<Rightarrow> string list
   \<Rightarrow> (exn + 'a AgentRunResponse \<times> 'a tool_state) option" where
  "approval_loop run_agent query result' st answers =
     (if length (user_input_requests result') > 0
      then (case collect_approvals (user_input_requests result') answers of
              Inl err \<Rightarrow> Some (Inl err)
            | Inr got \<Rightarrow>
                (let new_inputs = [TextContent query] @ fst got
                 in case run_agent new_inputs st of
                      None \<Rightarrow> None
                    | Some next_result \<Rightarrow>
                        approval_loop run_agent query (fst next_result) (snd next_result) (snd got)))
      else Some (Inr (result', st)))"

definition loan_query :: string where
  "loan_query = ''I want to request a loan of $150 to cover my gym subscription payment.''"

definition loan_main ::
  "('a::{plus,minus} content list \<Rightarrow> 'a llm_step) \<Rightarrow> ('a \<Rightarrow> string) \<Rightarrow> string list \<Rightarrow> 'a tool_state
   \<Rightarrow> (exn + 'a AgentRunResponse \<times> 'a tool_state) option" where
  "loan_main llm fmt answers st =
     (let tools = [get_balance_tool fmt, make_payment_tool fmt] @ [get_loan_tool fmt]
      in case agent_run llm tools [TextContent loan_query] st of
           None \<Rightarrow> None
         | Some first \<Rightarrow>
             approval_loop (agent_run llm tools) loan_query (fst first) (snd first) answers)"

text \<open>
  A language model to instantiate the parameter: it first asks for the balance, then,
  once the conversation holds the balance, for a loan of 150, and it answers once the
  conversation holds a result for the loan.
\<close>

definition has_result :: "string \<Rightarrow> 'a content list \<Rightarrow> bool" where
  "has_result n conv =
     list_ex (\<lambda>x. case x of FunctionResultContent c out \<Rightarrow> call_name c = n | _ \<Rightarrow> False) conv"

definition sample_llm :: "real content list \<Rightarrow> real llm_step" where
  "sample_llm conv =
     (if has_result ''get_loan'' conv
      then Answer ''Your loan has been processed.''
      else if has_result ''get_balance'' conv
      then FunctionCalls [\<lparr>call_name = ''get_loan'', call_amount = 150, call_reason = []\<rparr>]
      else FunctionCalls [\<lparr>call_name = ''get_balance'', call_amount = 0, call_reason = []\<rparr>])"

section \<open>03-extras/03-context_provider.py\<close>

record UserInfo =
  name :: "string option"
  age :: "int option"

text \<open>The decimal text of an integer, as an f-string prints it.\<close>

fun str_nat :: "nat \<Rightarrow> string" where
  "str_nat n =
     (if n < 10 then [char_of (48 + n)] else str_nat (n div 10) @ [char_of (48 + n mod 10)])"

definition str_int :: "int \<Rightarrow> string" where
  "str_int i = (if i < 0 then ''-'' @ str_nat (nat (- i)) else str_nat (nat i))"

definition ask_name :: string where
  "ask_name = ''Ask the user for their name and politely decline to answer any questions until they provide it.''"

definition ask_age :: string where
  "ask_age = ''Ask the user for their age and politely decline to answer any questions until they provide it.''"

definition name_instruction :: "UserInfo \<Rightarrow> string" where
  "name_instruction user_info =
     (case name user_info of
        None \<Rightarrow> ask_name
      | Some n \<Rightarrow> ''The user's name is '' @ n @ ''.'')"

definition age_instruction :: "UserInfo \<Rightarrow> string" where
  "age_instruction user_info =
     (case age user_info of
        None \<Rightarrow> ask_age
      | Some a \<Rightarrow> ''The user's age is '' @ str_int a @ ''.'')"

text \<open>\<open>invoking\<close>: the instructions of the returned \<open>Context\<close>.\<close>

definition invoking :: "UserInfo \<Rightarrow> string" where
  "invoking user_info =
     (let instructions = [] @ [name_instruction user_info] @ [age_instruction user_info]
      in join '' '' instructions)"

text \<open>
  \<open>result.value\<close> of the chat client's response: nothing, a \<open>UserInfo\<close>, or a value of
  another type. The chat client's \<open>get_response\<close> is a parameter: the value, or the
  exception of the call.
\<close>

datatype structured_value = NoValue | UserInfoValue UserInfo | OtherValue

definition truthy_str :: "string option \<Rightarrow> bool" where
  "truthy_str v = (case v of None \<Rightarrow> False | Some s \<Rightarrow> s \<noteq> [])"

definition truthy_int :: "int option \<Rightarrow> bool" where
  "truthy_int v = (case v of None \<Rightarrow> False | Some i \<Rightarrow> i \<noteq> 0)"

definition invoked ::
  "(chat_message list \<Rightarrow> exn + structured_value) \<Rightarrow> chat_message list \<Rightarrow> UserInfo \<Rightarrow> UserInfo" where
  "invoked get_response request_messages user_info =
     (let user_messages = filter (\<lambda>msg. msg_role msg = USER) request_messages
      in if (name user_info = None \<or> age user_info = None) \<and> user_messages \<noteq> []
         then (case get_response request_messages of
                 Inl err \<Rightarrow> user_info
               | Inr (UserInfoValue v) \<Rightarrow>
                   (let u1 = (if name user_info = None \<and> truthy_str (name v)
                              then user_info\<lparr>name := name v\<rparr> else user_info);
                        u2 = (if age u1 = None \<and> truthy_int (age v)
                              then u1\<lparr>age := age v\<rparr> else u1)
                    in u2)
               | Inr other \<Rightarrow> user_info)
         else user_info)"

text \<open>A sequence of agent calls, each followed by \<open>invoked\<close> on its request.\<close>

fun invoked_all ::
  "((chat_message list \<Rightarrow> exn + structured_value) \<times> chat_message list) list \<Rightarrow> UserInfo \<Rightarrow> UserInfo" where
  "invoked_all [] user_info = user_info"
| "invoked_all (call # calls) user_info =
     invoked_all calls (invoked (fst call) (snd call) user_info)"

section \<open>Properties\<close>

lemma py_upper_hello_world: "py_upper ''hello world'' = ''HELLO WORLD''"
  by code_simp

subsection \<open>The scheduler loop, one step at a time\<close>

lemma run_loop_idle: "pending s = [] \<Longrightarrow> run_loop g s = Some (finish IDLE s)"
  by (subst run_loop.simps) simp

lemma run_loop_step:
  "pending s = p # rest \<Longrightarrow>
   run_loop g s = (case step g (fst p) (snd p) (s\<lparr>pending := rest\<rparr>) of
                     Inl failed \<Rightarrow> Some failed
                   | Inr s' \<Rightarrow> run_loop g s')"
  by (subst run_loop.simps) simp

subsection \<open>The sequential workflow\<close>

lemma basic_graph:
  "build (set_start_executor upper_case (add_edge upper_case reverse_text_executor None WorkflowBuilder)) =
   Inr \<lparr>executors = [upper_case, reverse_text_executor],
        edges = [\<lparr>source = ''upper_case_executor'', target = ''reverse_text_executor'', cond = None\<rparr>],
        start = ''upper_case_executor''\<rparr>"
  by (simp add: build_def set_start_executor_def add_edge_def WorkflowBuilder_def register_def
      upper_case_def reverse_text_executor_def)

text \<open>
  C1. The two-node workflow (the start executor uppercases its input and forwards it,
  the second executor reverses its input and yields it) run on \<open>hello world\<close> returns;
  its only output is \<open>DLROW OLLEH\<close> and its final state is idle. The trace is the one
  of the first-in first-out scheduler.
\<close>

theorem basic_workflow_hello_world:
  "basic_main ''hello world'' =
   Some (Inr \<lparr>r_events =
               [ExecutorStarted ''upper_case_executor'',
                MessageDelivered ''upper_case_executor'' ''reverse_text_executor''
                  (StrMessage ''HELLO WORLD''),
                ExecutorCompleted ''upper_case_executor'',
                ExecutorStarted ''reverse_text_executor'',
                OutputYielded ''reverse_text_executor'' ''DLROW OLLEH'',
                ExecutorCompleted ''reverse_text_executor''],
              r_outputs = [''DLROW OLLEH''],
              r_final_state = IDLE\<rparr>)"
  unfolding basic_main_def basic_graph
  by (simp add: run_def run_loop_idle run_loop_step step_def
      upper_case_def reverse_text_executor_def on_str_def to_upper_case_def reverse_text_def
      py_upper_hello_world targets_def accepts_def finish_def)

subsection \<open>Conditional routing\<close>

lemma control_flow_graph:
  "build (control_flow_builder vd ve sc ec) =
   Inr \<lparr>executors =
          [(''spam_detection_agent'', AgentExecutor sc),
           (''to_email_assistant_request'', on_response (to_email_assistant_request vd)),
           (''email_assistant_agent'', AgentExecutor ec),
           (''send_email'', on_response (handle_email_response ve)),
           (''handle_spam'', on_response (handle_spam_classifier_response vd))],
        edges =
          [\<lparr>source = ''spam_detection_agent'', target = ''to_email_assistant_request'',
            cond = Some (get_condition vd False)\<rparr>,
           \<lparr>source = ''to_email_assistant_request'', target = ''email_assistant_agent'', cond = None\<rparr>,
           \<lparr>source = ''email_assistant_agent'', target = ''send_email'', cond = None\<rparr>,
           \<lparr>source = ''spam_detection_agent'', target = ''handle_spam'',
            cond = Some (get_condition vd True)\<rparr>],
        start = ''spam_detection_agent''\<rparr>"
  unfolding control_flow_builder_def Let_def set_start_executor_def add_edge_def WorkflowBuilder_def
  by (simp add: build_def register_def)

lemma get_condition_response:
  "validate reply = Inr d \<Longrightarrow> get_condition validate e (AgentExecutorResponse reply) = Inr (is_spam d = e)"
  by (simp add: get_condition_def condition_def)

text \<open>
  C2. For a classifier response whose text validates as a \<open>DetectionResult\<close>, the
  condition of \<open>get_condition(False)\<close> is true exactly when \<open>is_spam\<close> is false and
  the condition of \<open>get_condition(True)\<close> is true exactly when \<open>is_spam\<close> is true.
  Hence, when the classifier answers with a non-spam result, the run of the routing graph
  returns, the non-spam branch is started, and the spam-branch executor is never started
  and never delivered a message.
\<close>

theorem get_condition_routes_by_is_spam:
  assumes "validate reply = Inr d"
  shows "get_condition validate False (AgentExecutorResponse reply) = Inr (\<not> is_spam d)
       \<and> get_condition validate True (AgentExecutorResponse reply) = Inr (is_spam d)
       \<and> (\<not> is_spam d \<longrightarrow> spam_client [\<lparr>msg_role = USER, msg_text = email\<rparr>] = Inr reply \<longrightarrow>
            (\<exists>r. control_flow_main validate validate_email spam_client email_client email = Some (Inr r)
               \<and> ExecutorStarted ''to_email_assistant_request'' \<in> set (r_events r)
               \<and> ExecutorStarted ''handle_spam'' \<notin> set (r_events r)
               \<and> (\<forall>src m. MessageDelivered src ''handle_spam'' m \<notin> set (r_events r))))"
proof (intro conjI impI)
  show "get_condition validate False (AgentExecutorResponse reply) = Inr (\<not> is_spam d)"
    using assms by (simp add: get_condition_response)
  show "get_condition validate True (AgentExecutorResponse reply) = Inr (is_spam d)"
    using assms by (simp add: get_condition_response)
next
  assume ham: "\<not> is_spam d" and answered: "spam_client [\<lparr>msg_role = USER, msg_text = email\<rparr>] = Inr reply"
  show "\<exists>r. control_flow_main validate validate_email spam_client email_client email = Some (Inr r)
               \<and> ExecutorStarted ''to_email_assistant_request'' \<in> set (r_events r)
               \<and> ExecutorStarted ''handle_spam'' \<notin> set (r_events r)
               \<and> (\<forall>src m. MessageDelivered src ''handle_spam'' m \<notin> set (r_events r))"
    using assms ham answered
    by (simp add: control_flow_main_def control_flow_graph run_def run_loop_idle run_loop_step
        step_def AgentExecutor_def on_response_def to_email_assistant_request_def
        handle_email_response_def targets_def accepts_def finish_def get_condition_response
        split: sum.splits)
qed

theorem get_condition_routes_by_is_spam_witness:
  "sample_validate ''legitimate'' =
     Inr \<lparr>is_spam = False, reason = ''a follow-up from a colleague'', email_content = ''Hi Sarah''\<rparr>
   \<and> get_condition sample_validate False (AgentExecutorResponse ''legitimate'') = Inr True
   \<and> get_condition sample_validate True (AgentExecutorResponse ''legitimate'') = Inr False
   \<and> (\<exists>r. control_flow_main sample_validate sample_validate_email
              (\<lambda>msgs. Inr ''legitimate'') (\<lambda>msgs. Inr ''draft'') ''Hello'' = Some (Inr r)
          \<and> ExecutorStarted ''to_email_assistant_request'' \<in> set (r_events r)
          \<and> ExecutorStarted ''handle_spam'' \<notin> set (r_events r)
          \<and> (\<forall>src m. MessageDelivered src ''handle_spam'' m \<notin> set (r_events r)))"
  using get_condition_routes_by_is_spam
    [where validate = sample_validate and reply = "''legitimate''"
       and d = "\<lparr>is_spam = False, reason = ''a follow-up from a colleague'', email_content = ''Hi Sarah''\<rparr>"
       and spam_client = "\<lambda>msgs. Inr ''legitimate''" and email = "''Hello''"
       and validate_email = sample_validate_email and email_client = "\<lambda>msgs. Inr ''draft''"]
  by (simp add: sample_validate_def)

text \<open>
  C3, as stated, fails: a message that is not an \<open>AgentExecutorResponse\<close> cannot be
  read as a \<open>DetectionResult\<close>, and the predicate lets it pass (the defensive guard at
  the head of \<open>condition\<close>) instead of returning false.
\<close>

theorem get_condition_fail_closed_counterexample:
  "\<not> interpretable sample_validate (StrMessage ''hello world'')
   \<and> get_condition sample_validate True (StrMessage ''hello world'') = Inr True"
  by (simp add: interpretable_def get_condition_def condition_def)

text \<open>
  C3, amended. The predicate of \<open>get_condition\<close> returns a boolean for every message
  and never raises. On a message that cannot be read as a \<open>DetectionResult\<close> it
  returns false when the message is an \<open>AgentExecutorResponse\<close> (its text does not
  validate: the edge does not fire), and true when the message is of another type.
\<close>

theorem get_condition_total:
  "(\<exists>b. get_condition validate e m = Inr b)
   \<and> (\<not> interpretable validate m \<longrightarrow> get_condition validate e m = Inr (\<not> is_response m))"
  by (cases m) (auto simp: get_condition_def condition_def interpretable_def is_response_def
      split: sum.splits)

theorem get_condition_total_witness:
  "\<not> interpretable sample_validate (AgentExecutorResponse ''not json'')
   \<and> get_condition sample_validate True (AgentExecutorResponse ''not json'') = Inr False"
  using get_condition_total [of sample_validate True "AgentExecutorResponse ''not json''"]
  by (simp add: interpretable_def sample_validate_def is_response_def)

text \<open>
  C10. On a response whose text validates as a \<open>DetectionResult\<close>, the spam-branch
  executor yields the one output \<open>Email marked as spam: \<close> followed by the reason when
  \<open>is_spam\<close> is true, and raises a \<open>RuntimeError\<close>, with no output, when
  \<open>is_spam\<close> is false.
\<close>

theorem handle_spam_contract:
  assumes "validate reply = Inr d"
  shows "handle_spam_classifier_response validate reply =
           (if is_spam d
            then Inr [YieldOutput (''Email marked as spam: '' @ reason d)]
            else Inl (RuntimeError ''This executor should only handle spam messages.''))"
  using assms by (simp add: handle_spam_classifier_response_def)

theorem handle_spam_contract_witness:
  "sample_validate ''junk'' =
     Inr \<lparr>is_spam = True, reason = ''unsolicited offer'', email_content = ''You won''\<rparr>
   \<and> handle_spam_classifier_response sample_validate ''junk'' =
       Inr [YieldOutput ''Email marked as spam: unsolicited offer'']
   \<and> handle_spam_classifier_response sample_validate ''legitimate'' =
       Inl (RuntimeError ''This executor should only handle spam messages.'')"
  using handle_spam_contract [where validate = sample_validate and reply = "''junk''"
      and d = "\<lparr>is_spam = True, reason = ''unsolicited offer'', email_content = ''You won''\<rparr>"]
    handle_spam_contract [where validate = sample_validate and reply = "''legitimate''"
      and d = "\<lparr>is_spam = False, reason = ''a follow-up from a colleague'', email_content = ''Hi Sarah''\<rparr>"]
  by (simp add: sample_validate_def)

subsection \<open>The chat middleware\<close>

lemma sublist_map_iff:
  "sublist xs (map f t) \<longleftrightarrow> (\<exists>pre mid post. t = pre @ mid @ post \<and> map f mid = xs)"
proof
  assume "sublist xs (map f t)"
  then obtain ps ss where "map f t = ps @ xs @ ss"
    unfolding sublist_def by blast
  then have "\<exists>a b. t = a @ b \<and> ps = map f a \<and> xs @ ss = map f b"
    by (simp only: map_eq_append_conv)
  then obtain a b where ab: "t = a @ b" "xs @ ss = map f b"
    by blast
  from ab(2) have "\<exists>c d. b = c @ d \<and> xs = map f c \<and> ss = map f d"
    by (simp only: append_eq_map_conv)
  then obtain c d where "b = c @ d" "map f c = xs"
    by blast
  with ab show "\<exists>pre mid post. t = pre @ mid @ post \<and> map f mid = xs"
    by blast
next
  assume "\<exists>pre mid post. t = pre @ mid @ post \<and> map f mid = xs"
  then obtain pre mid post where "t = pre @ mid @ post" "map f mid = xs"
    by blast
  then have "map f t = map f pre @ xs @ map f post"
    by simp
  then show "sublist xs (map f t)"
    unfolding sublist_def by blast
qed

lemma contains_map_iff:
  assumes "w \<noteq> []"
  shows "(t \<noteq> [] \<and> sublist w (map f t)) \<longleftrightarrow>
         (\<exists>pre mid post. t = pre @ mid @ post \<and> map f mid = w)"
proof -
  have "t \<noteq> []" if "t = pre @ mid @ post" "map f mid = w" for pre mid post
    using that assms by auto
  then show ?thesis
    unfolding sublist_map_iff by blast
qed

lemma blocked_iff:
  "(msg_text m \<noteq> [] \<and> sublist blocked_term (py_lower (msg_text m))) \<longleftrightarrow>
   (\<exists>pre mid post. msg_text m = pre @ mid @ post \<and> py_lower mid = ''bitcoin'')"
proof -
  have "blocked_term \<noteq> []"
    by (simp add: blocked_term_def)
  then have "(msg_text m \<noteq> [] \<and> sublist blocked_term (map lower_char (msg_text m))) \<longleftrightarrow>
     (\<exists>pre mid post. msg_text m = pre @ mid @ post \<and> map lower_char mid = blocked_term)"
    by (rule contains_map_iff)
  then show ?thesis
    unfolding py_lower_def blocked_term_def .
qed

lemma security_loop_passes:
  "security_loop ms context = None \<longleftrightarrow>
   \<not> (\<exists>m \<in> set ms. msg_text m \<noteq> [] \<and> sublist blocked_term (py_lower (msg_text m)))"
  by (induction ms) (auto simp: Let_def)

lemma security_loop_blocks:
  "security_loop ms context = Some c \<Longrightarrow> c = context\<lparr>result := Some rejection, terminate := True\<rparr>"
  by (induction ms) (auto simp: Let_def split: if_splits)

lemma lower_char_letter:
  assumes "97 \<le> (of_char l :: nat)" "(of_char l :: nat) \<le> 122"
  shows "lower_char c = l \<longleftrightarrow> c = l \<or> (of_char c :: nat) + 32 = of_char l"
proof (cases "65 \<le> (of_char c :: nat) \<and> (of_char c :: nat) \<le> 90")
  case True
  then have low: "lower_char c = char_of ((of_char c :: nat) + 32)"
    by (simp add: lower_char_def)
  have "char_of ((of_char c :: nat) + 32) = l \<longleftrightarrow> (of_char c :: nat) + 32 = of_char l"
  proof
    assume "char_of ((of_char c :: nat) + 32) = l"
    then have "(of_char (char_of ((of_char c :: nat) + 32)) :: nat) = of_char l"
      by simp
    with True show "(of_char c :: nat) + 32 = of_char l"
      by (simp only: of_char_of) simp
  next
    assume "(of_char c :: nat) + 32 = of_char l"
    then have "char_of ((of_char c :: nat) + 32) = char_of (of_char l :: nat)"
      by simp
    then show "char_of ((of_char c :: nat) + 32) = l"
      by simp
  qed
  moreover from True assms have "c \<noteq> l"
    by auto
  ultimately show ?thesis
    using low by simp
next
  case False
  then have "lower_char c = c"
    by (auto simp: lower_char_def)
  moreover from False assms have "(of_char c :: nat) + 32 \<noteq> of_char l"
    by auto
  ultimately show ?thesis
    by simp
qed

lemma py_lower_letters:
  assumes "\<forall>l \<in> set w. 97 \<le> (of_char l :: nat) \<and> (of_char l :: nat) \<le> 122"
  shows "py_lower mid = w \<longleftrightarrow>
         list_all2 (\<lambda>c l. c = l \<or> (of_char c :: nat) + 32 = of_char l) mid w"
  using assms
proof (induction mid arbitrary: w)
  case Nil
  then show ?case
    by (auto simp: py_lower_def)
next
  case (Cons c mid)
  show ?case
  proof (cases w)
    case Nil
    then show ?thesis
      by (simp add: py_lower_def)
  next
    case (Cons l w')
    with Cons.prems have l: "97 \<le> (of_char l :: nat)" "(of_char l :: nat) \<le> 122"
      and w': "\<forall>l \<in> set w'. 97 \<le> (of_char l :: nat) \<and> (of_char l :: nat) \<le> 122"
      by simp_all
    from Cons.IH [OF w'] lower_char_letter [OF l, of c] Cons show ?thesis
      by (simp add: py_lower_def)
  qed
qed

lemma bitcoin_letters:
  "\<forall>l \<in> set ''bitcoin''. 97 \<le> (of_char l :: nat) \<and> (of_char l :: nat) \<le> 122"
  by simp

lemma blocked_any_case_iff:
  "(msg_text m \<noteq> [] \<and> sublist blocked_term (py_lower (msg_text m))) \<longleftrightarrow>
   (\<exists>pre mid post. msg_text m = pre @ mid @ post
      \<and> list_all2 (\<lambda>c l. c = l \<or> (of_char c :: nat) + 32 = of_char l) mid ''bitcoin'')"
  unfolding blocked_iff py_lower_letters [OF bitcoin_letters] ..

text \<open>
  C5. \<open>security_middleware\<close> short-circuits exactly on blocked content. If the text
  of some message of the context contains \<open>bitcoin\<close> in any mix of upper and lower case
  (a contiguous part of the text each of whose characters is the letter of the term at
  its place, or the character 32 codes below it, its capital), the middleware sets the
  result to the fixed rejection response and the terminate flag to true and never
  invokes the continuation. Otherwise it invokes the continuation exactly once, on the
  context as it received it, and the context at the end is the one the continuation
  left: the middleware sets neither field itself.
\<close>

theorem security_middleware_short_circuits:
  "security_middleware context next =
     (if \<exists>m \<in> set (messages context).
           \<exists>pre mid post. msg_text m = pre @ mid @ post
             \<and> list_all2 (\<lambda>c l. c = l \<or> (of_char c :: nat) + 32 = of_char l) mid ''bitcoin''
      then (context\<lparr>result := Some rejection, terminate := True\<rparr>, [])
      else (next context, [context]))"
proof (cases "security_loop (messages context) context")
  case None
  then have "\<not> (\<exists>m \<in> set (messages context).
           \<exists>pre mid post. msg_text m = pre @ mid @ post
             \<and> list_all2 (\<lambda>c l. c = l \<or> (of_char c :: nat) + 32 = of_char l) mid ''bitcoin'')"
    unfolding security_loop_passes blocked_any_case_iff .
  with None show ?thesis
    by (simp add: security_middleware_def)
next
  case (Some c)
  then have "security_loop (messages context) context \<noteq> None"
    by simp
  then have "\<exists>m \<in> set (messages context).
           \<exists>pre mid post. msg_text m = pre @ mid @ post
             \<and> list_all2 (\<lambda>c l. c = l \<or> (of_char c :: nat) + 32 = of_char l) mid ''bitcoin''"
    unfolding security_loop_passes blocked_any_case_iff by simp
  with Some security_loop_blocks [OF Some] show ?thesis
    by (simp add: security_middleware_def)
qed

theorem security_middleware_short_circuits_witness:
  "security_middleware
     \<lparr>messages = [\<lparr>msg_role = USER, msg_text = ''I want to know about bitcoin.''\<rparr>],
      result = None, terminate = False\<rparr> (\<lambda>c. c\<lparr>result := Some \<lparr>response_messages = []\<rparr>\<rparr>) =
     (\<lparr>messages = [\<lparr>msg_role = USER, msg_text = ''I want to know about bitcoin.''\<rparr>],
       result = Some rejection, terminate = True\<rparr>, [])
   \<and> security_middleware
     \<lparr>messages = [\<lparr>msg_role = SYSTEM, msg_text = ''You are a helpful assistant.''\<rparr>,
                  \<lparr>msg_role = USER, msg_text = ''Should I buy BitCoin or BITCOIN today?''\<rparr>],
      result = None, terminate = False\<rparr> (\<lambda>c. c\<lparr>result := Some \<lparr>response_messages = []\<rparr>\<rparr>) =
     (\<lparr>messages = [\<lparr>msg_role = SYSTEM, msg_text = ''You are a helpful assistant.''\<rparr>,
                   \<lparr>msg_role = USER, msg_text = ''Should I buy BitCoin or BITCOIN today?''\<rparr>],
       result = Some rejection, terminate = True\<rparr>, [])
   \<and> security_middleware
     \<lparr>messages = [\<lparr>msg_role = USER, msg_text = ''What is the weather in Zurich''\<rparr>],
      result = None, terminate = False\<rparr> (\<lambda>c. c\<lparr>result := Some \<lparr>response_messages = []\<rparr>\<rparr>) =
     (\<lparr>messages = [\<lparr>msg_role = USER, msg_text = ''What is the weather in Zurich''\<rparr>],
       result = Some \<lparr>response_messages = []\<rparr>, terminate = False\<rparr>,
      [\<lparr>messages = [\<lparr>msg_role = USER, msg_text = ''What is the weather in Zurich''\<rparr>],
        result = None, terminate = False\<rparr>])"
proof -
  let ?m1 = "\<lparr>msg_role = USER, msg_text = ''I want to know about bitcoin.''\<rparr>"
  let ?m0 = "\<lparr>msg_role = SYSTEM, msg_text = ''You are a helpful assistant.''\<rparr>"
  let ?m3 = "\<lparr>msg_role = USER, msg_text = ''Should I buy BitCoin or BITCOIN today?''\<rparr>"
  let ?m2 = "\<lparr>msg_role = USER, msg_text = ''What is the weather in Zurich''\<rparr>"
  let ?next = "\<lambda>c. c\<lparr>result := Some \<lparr>response_messages = []\<rparr>\<rparr>"
  define Q where
    "Q = (\<lambda>m::chat_message. \<exists>pre mid post. msg_text m = pre @ mid @ post
            \<and> list_all2 (\<lambda>c l. c = l \<or> (of_char c :: nat) + 32 = of_char l) mid ''bitcoin'')"
  have "msg_text ?m1 \<noteq> [] \<and> sublist blocked_term (py_lower (msg_text ?m1))"
    by code_simp
  then have q1: "Q ?m1"
    unfolding Q_def by (rule blocked_any_case_iff [THEN iffD1])
  have "msg_text ?m3 \<noteq> [] \<and> sublist blocked_term (py_lower (msg_text ?m3))"
    by code_simp
  then have q3: "Q ?m3"
    unfolding Q_def by (rule blocked_any_case_iff [THEN iffD1])
  have "\<not> (msg_text ?m2 \<noteq> [] \<and> sublist blocked_term (py_lower (msg_text ?m2)))"
    by code_simp
  then have q2: "\<not> Q ?m2"
    unfolding Q_def blocked_any_case_iff [symmetric] .
  show ?thesis
    using q1 q2 q3
      security_middleware_short_circuits
        [of "\<lparr>messages = [?m1], result = None, terminate = False\<rparr>" ?next, folded Q_def]
      security_middleware_short_circuits
        [of "\<lparr>messages = [?m0, ?m3], result = None, terminate = False\<rparr>" ?next, folded Q_def]
      security_middleware_short_circuits
        [of "\<lparr>messages = [?m2], result = None, terminate = False\<rparr>" ?next, folded Q_def]
    by simp
qed

subsection \<open>The custom message store\<close>

text \<open>
  C6. Serialization round trip of \<open>CustomChatMessageStore\<close>. Provided the framework's
  state codec gives back the messages it was given and its serialized value of a
  non-empty list is a true value of Python, deserializing what \<open>serialize\<close> produced
  succeeds with a store whose \<open>list_messages\<close> is the list of the original, in the
  same order.
\<close>

theorem store_round_trip:
  assumes "\<And>ms. from_dict codec (to_dict codec ms) = Inr ms"
    and "\<And>ms. ms \<noteq> [] \<Longrightarrow> truthy codec (to_dict codec ms)"
  shows "\<exists>resumed. deserialize codec (serialize codec store) = Inr resumed
           \<and> list_messages resumed = list_messages store"
proof (cases "store_messages store = []")
  case True
  with assms(1) show ?thesis
    by (simp add: Let_def deserialize_def serialize_def update_from_state_def init_store_def
        list_messages_def)
next
  case False
  with assms show ?thesis
    by (simp add: Let_def deserialize_def serialize_def update_from_state_def init_store_def
        list_messages_def)
qed

theorem store_round_trip_witness:
  "(\<exists>resumed.
      deserialize list_codec
        (serialize list_codec
           \<lparr>store_messages = [\<lparr>msg_role = USER, msg_text = ''Who is Tom Cruise?''\<rparr>,
                              \<lparr>msg_role = ASSISTANT, msg_text = ''An actor.''\<rparr>]\<rparr>) = Inr resumed
      \<and> list_messages resumed =
          [\<lparr>msg_role = USER, msg_text = ''Who is Tom Cruise?''\<rparr>,
           \<lparr>msg_role = ASSISTANT, msg_text = ''An actor.''\<rparr>])"
  using store_round_trip [of list_codec
      "\<lparr>store_messages = [\<lparr>msg_role = USER, msg_text = ''Who is Tom Cruise?''\<rparr>,
                          \<lparr>msg_role = ASSISTANT, msg_text = ''An actor.''\<rparr>]\<rparr>"]
  by (simp add: list_codec_def list_messages_def)

subsection \<open>The payment tools\<close>

text \<open>
  C8. For every amount and reason, \<open>_make_payment\<close> sets the balance to its previous
  value minus the amount and returns the confirmation string: no check refuses a payment.
  \<open>get_balance\<close> reports the balance it finds, so after a payment it reports the
  difference. From the initial balance of 100 some payment (150) leaves the balance
  negative.
\<close>

theorem make_payment_unguarded:
  "make_payment fmt a r b = (''Processing payment of $'' @ fmt a @ '' for '' @ r @ ''.'', b - a)
   \<and> get_balance fmt (snd (make_payment fmt a r b)) = ''The balance for is $'' @ fmt (b - a) @ ''.''
   \<and> get_balance fmt b = ''The balance for is $'' @ fmt b @ ''.''
   \<and> (\<exists>a' r'. snd (make_payment fmt' a' r' initial_balance) < 0)"
proof -
  have "snd (make_payment fmt' 150 [] initial_balance) < 0"
    by (simp add: make_payment_def initial_balance_def)
  then have "\<exists>a' r'. snd (make_payment fmt' a' r' initial_balance) < 0"
    by (intro exI)
  then show ?thesis
    by (simp add: make_payment_def get_balance_def)
qed

subsection \<open>The user-information memory\<close>

lemma invoked_name_kept: "name u = Some n \<Longrightarrow> name (invoked gr req u) = Some n"
  by (auto simp: invoked_def Let_def split: sum.splits structured_value.splits)

lemma invoked_age_kept: "age u = Some a \<Longrightarrow> age (invoked gr req u) = Some a"
  by (auto simp: invoked_def Let_def split: sum.splits structured_value.splits)

lemma invoked_all_name_kept: "name u = Some n \<Longrightarrow> name (invoked_all calls u) = Some n"
  by (induction calls arbitrary: u) (simp_all add: invoked_name_kept)

lemma invoked_all_age_kept: "age u = Some a \<Longrightarrow> age (invoked_all calls u) = Some a"
  by (induction calls arbitrary: u) (simp_all add: invoked_age_kept)

lemma invoked_failure: "gr req = Inl err \<Longrightarrow> invoked gr req u = u"
  by (simp add: invoked_def Let_def)

lemma str_nat_small: "n < 10 \<Longrightarrow> str_nat n = [char_of (48 + n)]"
  by (subst str_nat.simps) (simp del: str_nat.simps)

lemma str_nat_large:
  "\<not> n < 10 \<Longrightarrow> str_nat n = str_nat (n div 10) @ [char_of (48 + n mod 10)]"
  by (subst str_nat.simps) (simp del: str_nat.simps)

lemma str_nat_decimal:
  "foldl (\<lambda>v ch. 10 * v + ((of_char ch :: nat) - 48)) 0 (str_nat n) = n"
proof (induction n rule: str_nat.induct)
  case (1 n)
  show ?case
  proof (cases "n < 10")
    case True
    then have "(48 + n) mod 256 = 48 + n"
      by simp
    with True show ?thesis
      by (simp add: str_nat_small del: str_nat.simps)
  next
    case False
    have "(48 + n mod 10) mod 256 = 48 + n mod 10"
      by simp
    moreover from False 1 have
      "foldl (\<lambda>v ch. 10 * v + ((of_char ch :: nat) - 48)) 0 (str_nat (n div 10)) = n div 10"
      by (simp del: str_nat.simps)
    ultimately show ?thesis
      using False by (simp add: str_nat_large del: str_nat.simps)
  qed
qed

lemma str_int_decimal:
  "0 \<le> i \<Longrightarrow> foldl (\<lambda>v ch. 10 * v + ((of_char ch :: nat) - 48)) 0 (str_int i) = nat i"
  by (simp add: str_int_def str_nat_decimal del: str_nat.simps)

text \<open>
  C9. \<open>UserInfoMemory\<close> is write-once. A name that is set stays what it is through
  any sequence of calls of \<open>invoked\<close>, whatever the chat client extracts, and so does
  an age. When the extraction call fails, \<open>invoked\<close> leaves the user information as
  it was. \<open>invoking\<close> asks for exactly the fields that are still null and states the
  ones that are known: its instructions are the sentence for the name and the sentence
  for the age, joined by a space, and the age is stated in decimal digits (reading the
  digits of a non-negative age back gives the age).
\<close>

theorem user_info_write_once:
  "(name u = Some n \<longrightarrow> name (invoked_all calls u) = Some n)
   \<and> (age u = Some a \<longrightarrow> age (invoked_all calls u) = Some a)
   \<and> (get_response request_messages = Inl err \<longrightarrow> invoked get_response request_messages u = u)
   \<and> invoking u =
        (case name u of None \<Rightarrow> ask_name | Some n' \<Rightarrow> ''The user's name is '' @ n' @ ''.'')
        @ '' '' @
        (case age u of None \<Rightarrow> ask_age | Some a' \<Rightarrow> ''The user's age is '' @ str_int a' @ ''.'')
   \<and> (0 \<le> i \<longrightarrow> foldl (\<lambda>v ch. 10 * v + ((of_char ch :: nat) - 48)) 0 (str_int i) = nat i)"
  by (simp add: invoked_all_name_kept invoked_all_age_kept invoked_failure invoking_def
      name_instruction_def age_instruction_def str_int_decimal del: str_nat.simps)

lemma str_int_27: "str_int 27 = ''27''"
  by code_simp

theorem user_info_write_once_witness:
  "name (invoked_all
           [(\<lambda>msgs. Inr (UserInfoValue \<lparr>name = Some ''Alice'', age = Some 27\<rparr>),
             [\<lparr>msg_role = USER, msg_text = ''I am 27 years old''\<rparr>])]
           \<lparr>name = Some ''Bob'', age = None\<rparr>) = Some ''Bob''
   \<and> age (invoked_all
           [(\<lambda>msgs. Inr (UserInfoValue \<lparr>name = Some ''Alice'', age = Some 27\<rparr>),
             [\<lparr>msg_role = USER, msg_text = ''I am 27 years old''\<rparr>])]
           \<lparr>name = None, age = Some 30\<rparr>) = Some 30
   \<and> invoked (\<lambda>msgs. Inl (ExternalError ''timeout''))
         [\<lparr>msg_role = USER, msg_text = ''My Name is Bob''\<rparr>] \<lparr>name = None, age = None\<rparr> =
       \<lparr>name = None, age = None\<rparr>
   \<and> invoking \<lparr>name = Some ''Bob'', age = None\<rparr> =
       ''The user's name is Bob. Ask the user for their age and politely decline to answer any questions until they provide it.''
   \<and> invoking \<lparr>name = Some ''Bob'', age = Some 27\<rparr> =
       ''The user's name is Bob. The user's age is 27.''
   \<and> invoking \<lparr>name = None, age = Some 27\<rparr> =
       ''Ask the user for their name and politely decline to answer any questions until they provide it. The user's age is 27.''
   \<and> foldl (\<lambda>v ch. 10 * v + ((of_char ch :: nat) - 48)) 0 (str_int 27) = 27"
  using
    user_info_write_once
      [of "\<lparr>name = Some ''Bob'', age = None\<rparr>" "''Bob''"
          "[(\<lambda>msgs. Inr (UserInfoValue \<lparr>name = Some ''Alice'', age = Some 27\<rparr>),
             [\<lparr>msg_role = USER, msg_text = ''I am 27 years old''\<rparr>])]"]
    user_info_write_once
      [of "\<lparr>name = None, age = Some 30\<rparr>" _
          "[(\<lambda>msgs. Inr (UserInfoValue \<lparr>name = Some ''Alice'', age = Some 27\<rparr>),
             [\<lparr>msg_role = USER, msg_text = ''I am 27 years old''\<rparr>])]" 30]
    user_info_write_once
      [of "\<lparr>name = None, age = None\<rparr>" _ "[]" _ "\<lambda>msgs. Inl (ExternalError ''timeout'')"
          "[\<lparr>msg_role = USER, msg_text = ''My Name is Bob''\<rparr>]" "ExternalError ''timeout''"]
    user_info_write_once [of "\<lparr>name = Some ''Bob'', age = Some 27\<rparr>" _ "[]" _ _ _ _ 27]
    user_info_write_once [of "\<lparr>name = None, age = Some 27\<rparr>" _ "[]"]
  by (simp add: ask_age_def ask_name_def str_int_27 del: str_nat.simps)

subsection \<open>Approval-gated tools\<close>

lemma execute_call_log:
  "executed (snd (execute_call tools c st)) = executed st
   \<or> executed (snd (execute_call tools c st)) = executed st @ [c]"
  by (simp add: execute_call_def Let_def split: option.splits)

lemma execute_calls_log:
  "\<exists>new. executed (snd (execute_calls tools cs st)) = executed st @ new \<and> set new \<subseteq> set cs"
proof (induction cs arbitrary: st)
  case Nil
  then show ?case by simp
next
  case (Cons c cs)
  from Cons [of "snd (execute_call tools c st)"] obtain new where
    new: "executed (snd (execute_calls tools cs (snd (execute_call tools c st)))) =
            executed (snd (execute_call tools c st)) @ new" "set new \<subseteq> set cs"
    by blast
  from execute_call_log [of tools c st] show ?case
  proof
    assume "executed (snd (execute_call tools c st)) = executed st"
    with new show ?thesis
      by (auto simp: Let_def)
  next
    assume "executed (snd (execute_call tools c st)) = executed st @ [c]"
    with new have "executed (snd (execute_calls tools (c # cs) st)) = executed st @ (c # new)"
      by (simp add: Let_def)
    moreover from new have "set (c # new) \<subseteq> set (c # cs)"
      by auto
    ultimately show ?thesis
      by blast
  qed
qed

lemma apply_approvals_log:
  "\<exists>new. executed (snd (apply_approvals tools xs st)) = executed st @ new
         \<and> (\<forall>c \<in> set new. FunctionApprovalResponseContent True c \<in> set xs)"
proof (induction tools xs st rule: apply_approvals.induct)
  case (1 tools st)
  then show ?case by simp
next
  case (2 tools approved c xs st)
  show ?case
  proof (cases approved)
    case True
    with 2 obtain new where
      new: "executed (snd (apply_approvals tools xs (snd (execute_call tools c st)))) =
              executed (snd (execute_call tools c st)) @ new"
           "\<forall>c \<in> set new. FunctionApprovalResponseContent True c \<in> set xs"
      by blast
    from execute_call_log [of tools c st] show ?thesis
    proof
      assume "executed (snd (execute_call tools c st)) = executed st"
      with new True show ?thesis
        by (auto simp: Let_def)
    next
      assume "executed (snd (execute_call tools c st)) = executed st @ [c]"
      with new True have
        "executed (snd (apply_approvals tools (FunctionApprovalResponseContent approved c # xs) st)) =
           executed st @ (c # new)"
        by (simp add: Let_def)
      moreover from new True have
        "\<forall>d \<in> set (c # new).
           FunctionApprovalResponseContent True d \<in> set (FunctionApprovalResponseContent approved c # xs)"
        by auto
      ultimately show ?thesis
        by blast
    qed
  next
    case False
    with 2 show ?thesis
      by (auto simp: Let_def)
  qed
qed auto

lemma agent_loop_log:
  assumes "agent_loop llm tools conv st = Some y"
  shows "\<exists>new. executed (snd y) = executed st @ new \<and> (\<forall>c \<in> set new. \<not> gated tools c)"
  using assms
proof (induct rule: agent_loop.raw_induct [rotated 1, consumes 1, case_names step])
  case (step loop llm tools conv st y)
  show ?case
  proof (cases "llm conv")
    case (Answer t)
    with step(2) show ?thesis by auto
  next
    case (FunctionCalls calls)
    show ?thesis
    proof (cases "filter (gated tools) calls = []")
      case False
      with FunctionCalls step(2) show ?thesis by auto
    next
      case True
      with FunctionCalls step(2) have
        rec: "loop llm tools (conv @ fst (execute_calls tools calls st)) (snd (execute_calls tools calls st)) = Some y"
        by (simp add: Let_def)
      from step(1) [OF rec] obtain new where
        new: "executed (snd y) = executed (snd (execute_calls tools calls st)) @ new"
             "\<forall>c \<in> set new. \<not> gated tools c"
        by blast
      from execute_calls_log [of tools calls st] obtain ran where
        ran: "executed (snd (execute_calls tools calls st)) = executed st @ ran" "set ran \<subseteq> set calls"
        by blast
      from True have "\<forall>c \<in> set calls. \<not> gated tools c"
        by (simp add: filter_empty_conv)
      with ran(2) have "\<forall>c \<in> set ran. \<not> gated tools c"
        by blast
      with new ran(1) have "executed (snd y) = executed st @ (ran @ new)
          \<and> (\<forall>c \<in> set (ran @ new). \<not> gated tools c)"
        by auto
      then show ?thesis
        by blast
    qed
  qed
qed

lemma agent_loop_shape:
  assumes "agent_loop llm tools conv st = Some y"
  shows "(user_input_requests (fst y) = [] \<or> response_text (fst y) = [])
         \<and> (\<forall>c \<in> set (user_input_requests (fst y)). gated tools c)"
  using assms
proof (induct rule: agent_loop.raw_induct [rotated 1, consumes 1, case_names step])
  case (step loop llm tools conv st y)
  show ?case
  proof (cases "llm conv")
    case (Answer t)
    with step(2) show ?thesis by auto
  next
    case (FunctionCalls calls)
    show ?thesis
    proof (cases "filter (gated tools) calls = []")
      case False
      with FunctionCalls step(2) show ?thesis by auto
    next
      case True
      with FunctionCalls step(2) have
        "loop llm tools (conv @ fst (execute_calls tools calls st)) (snd (execute_calls tools calls st)) = Some y"
        by (simp add: Let_def)
      then show ?thesis
        by (rule step(1))
    qed
  qed
qed

lemma apply_approvals_none:
  "\<forall>a c. FunctionApprovalResponseContent a c \<notin> set xs \<Longrightarrow> apply_approvals tools xs st = ([], st)"
  by (induction tools xs st rule: apply_approvals.induct) auto

lemma agent_loop_answer:
  "llm conv = Answer t \<Longrightarrow>
   agent_loop llm tools conv st = Some (\<lparr>response_text = t, user_input_requests = []\<rparr>, st)"
  by (subst agent_loop.simps) simp

lemma agent_loop_suspend:
  "llm conv = FunctionCalls calls \<Longrightarrow> filter (gated tools) calls \<noteq> [] \<Longrightarrow>
   agent_loop llm tools conv st =
     Some (\<lparr>response_text = [], user_input_requests = filter (gated tools) calls\<rparr>, st)"
  by (subst agent_loop.simps) simp

lemma approval_loop_done:
  "user_input_requests r = [] \<Longrightarrow> approval_loop run_agent query r st answers = Some (Inr (r, st))"
  by (subst approval_loop.simps) simp

lemma approval_loop_again:
  "user_input_requests r \<noteq> [] \<Longrightarrow> collect_approvals (user_input_requests r) answers = Inr got \<Longrightarrow>
   run_agent ([TextContent query] @ fst got) st = Some next_result \<Longrightarrow>
   approval_loop run_agent query r st answers =
     approval_loop run_agent query (fst next_result) (snd next_result) (snd got)"
  by (subst approval_loop.simps) simp

lemma get_loan_gated:
  "gated ([get_balance_tool fmt, make_payment_tool fmt] @ [get_loan_tool fmt])
     \<lparr>call_name = ''get_loan'', call_amount = amount, call_reason = why\<rparr>"
  by (simp add: gated_def find_tool_def get_balance_tool_def make_payment_tool_def get_loan_tool_def)

lemma advance_loop:
  "advance n llm tools conv st = Some (conv', st') \<Longrightarrow>
   agent_loop llm tools conv st = agent_loop llm tools conv' st'"
proof (induction n arbitrary: conv st)
  case 0
  then show ?case by simp
next
  case (Suc n)
  from Suc.prems obtain calls where
    calls: "llm conv = FunctionCalls calls" "filter (gated tools) calls = []"
    and rest: "advance n llm tools (conv @ fst (execute_calls tools calls st))
                 (snd (execute_calls tools calls st)) = Some (conv', st')"
    by (auto simp: Let_def split: llm_step.splits if_splits)
  from calls have "agent_loop llm tools conv st =
      agent_loop llm tools (conv @ fst (execute_calls tools calls st)) (snd (execute_calls tools calls st))"
    by (subst agent_loop.simps) (simp add: Let_def)
  with Suc.IH [OF rest] show ?case
    by simp
qed

text \<open>
  C7. Every run that invokes an approval-gated tool suspends. Whatever the input of the
  run (a first run or a resumed one) and however many batches of tool calls it has
  executed, when the model's next step calls an approval-gated tool the run returns a
  result without text whose pending requests are the gated calls of that step, not
  empty, and the state is the one before that step: the tool body has not run. When the
  model's next step is an answer the run returns it with no pending request. A result
  never has both pending requests and a final text. In every run that returns, each
  approval-gated call whose body ran was approved in the input of that run. The tool
  \<open>get_loan\<close> of the sample is approval-gated.
\<close>

theorem approval_gated_tool_suspends:
  "(advance n llm tools (inputs @ fst (apply_approvals tools inputs st))
        (snd (apply_approvals tools inputs st)) = Some (conv, st1)
      \<and> llm conv = FunctionCalls calls \<and> c \<in> set calls \<and> gated tools c \<longrightarrow>
      agent_run llm tools inputs st =
        Some (\<lparr>response_text = [], user_input_requests = filter (gated tools) calls\<rparr>, st1)
      \<and> c \<in> set (filter (gated tools) calls))
   \<and> (advance n llm tools (inputs @ fst (apply_approvals tools inputs st))
        (snd (apply_approvals tools inputs st)) = Some (conv, st1)
      \<and> llm conv = Answer t \<longrightarrow>
      agent_run llm tools inputs st = Some (\<lparr>response_text = t, user_input_requests = []\<rparr>, st1))
   \<and> (agent_run llm tools inputs st = Some (r, st') \<longrightarrow>
        (user_input_requests r = [] \<or> response_text r = [])
        \<and> (\<exists>new. executed st' = executed st @ new
              \<and> (\<forall>d \<in> set new. gated tools d \<longrightarrow> FunctionApprovalResponseContent True d \<in> set inputs)))
   \<and> gated ([get_balance_tool fmt, make_payment_tool fmt] @ [get_loan_tool fmt])
        \<lparr>call_name = ''get_loan'', call_amount = amount, call_reason = why\<rparr>"
proof (intro conjI impI)
  assume reached: "advance n llm tools (inputs @ fst (apply_approvals tools inputs st))
        (snd (apply_approvals tools inputs st)) = Some (conv, st1)
      \<and> llm conv = FunctionCalls calls \<and> c \<in> set calls \<and> gated tools c"
  then have some: "filter (gated tools) calls \<noteq> []"
    by (auto simp: filter_empty_conv)
  from reached have adv: "advance n llm tools (inputs @ fst (apply_approvals tools inputs st))
        (snd (apply_approvals tools inputs st)) = Some (conv, st1)"
    by (rule conjunct1)
  have "agent_run llm tools inputs st = agent_loop llm tools conv st1"
    using advance_loop [OF adv] by (simp add: agent_run_def Let_def)
  with reached some show "agent_run llm tools inputs st =
        Some (\<lparr>response_text = [], user_input_requests = filter (gated tools) calls\<rparr>, st1)"
    by (simp add: agent_loop_suspend)
  from reached show "c \<in> set (filter (gated tools) calls)"
    by simp
next
  assume reached: "advance n llm tools (inputs @ fst (apply_approvals tools inputs st))
        (snd (apply_approvals tools inputs st)) = Some (conv, st1)
      \<and> llm conv = Answer t"
  then have adv: "advance n llm tools (inputs @ fst (apply_approvals tools inputs st))
        (snd (apply_approvals tools inputs st)) = Some (conv, st1)"
    by (rule conjunct1)
  have "agent_run llm tools inputs st = agent_loop llm tools conv st1"
    using advance_loop [OF adv] by (simp add: agent_run_def Let_def)
  with reached show "agent_run llm tools inputs st =
      Some (\<lparr>response_text = t, user_input_requests = []\<rparr>, st1)"
    by (simp add: agent_loop_answer)
next
  assume returned: "agent_run llm tools inputs st = Some (r, st')"
  then have loop: "agent_loop llm tools (inputs @ fst (apply_approvals tools inputs st))
      (snd (apply_approvals tools inputs st)) = Some (r, st')"
    by (simp add: agent_run_def Let_def)
  from agent_loop_shape [OF loop] show "user_input_requests r = [] \<or> response_text r = []"
    by simp
  from agent_loop_log [OF loop] obtain ran where
    ran: "executed st' = executed (snd (apply_approvals tools inputs st)) @ ran"
         "\<forall>d \<in> set ran. \<not> gated tools d"
    by auto
  from apply_approvals_log [of tools inputs st] obtain approved where
    approved: "executed (snd (apply_approvals tools inputs st)) = executed st @ approved"
              "\<forall>d \<in> set approved. FunctionApprovalResponseContent True d \<in> set inputs"
    by blast
  from ran approved have "executed st' = executed st @ (approved @ ran)
      \<and> (\<forall>d \<in> set (approved @ ran). gated tools d \<longrightarrow> FunctionApprovalResponseContent True d \<in> set inputs)"
    by auto
  then show "\<exists>new. executed st' = executed st @ new
      \<and> (\<forall>d \<in> set new. gated tools d \<longrightarrow> FunctionApprovalResponseContent True d \<in> set inputs)"
    by blast
next
  show "gated ([get_balance_tool fmt, make_payment_tool fmt] @ [get_loan_tool fmt])
        \<lparr>call_name = ''get_loan'', call_amount = amount, call_reason = why\<rparr>"
    by (rule get_loan_gated)
qed

lemma lower_y: "py_lower ''y'' = ''y''"
  by code_simp

lemma lower_n: "py_lower ''n'' = ''n''"
  by code_simp

theorem approval_gated_tool_suspends_witness:
  "agent_run sample_llm ([get_balance_tool (\<lambda>x. []), make_payment_tool (\<lambda>x. [])] @ [get_loan_tool (\<lambda>x. [])])
     [TextContent loan_query] \<lparr>st_balance = initial_balance, executed = []\<rparr> =
     Some (\<lparr>response_text = [],
            user_input_requests = [\<lparr>call_name = ''get_loan'', call_amount = 150, call_reason = []\<rparr>]\<rparr>,
           \<lparr>st_balance = initial_balance,
            executed = [\<lparr>call_name = ''get_balance'', call_amount = 0, call_reason = []\<rparr>]\<rparr>)
   \<and> loan_main sample_llm (\<lambda>x. []) [''y''] \<lparr>st_balance = initial_balance, executed = []\<rparr> =
     Some (Inr (\<lparr>response_text = ''Your loan has been processed.'', user_input_requests = []\<rparr>,
                \<lparr>st_balance = 250,
                 executed = [\<lparr>call_name = ''get_balance'', call_amount = 0, call_reason = []\<rparr>,
                             \<lparr>call_name = ''get_loan'', call_amount = 150, call_reason = []\<rparr>]\<rparr>))
   \<and> loan_main sample_llm (\<lambda>x. []) [''n''] \<lparr>st_balance = initial_balance, executed = []\<rparr> =
     Some (Inr (\<lparr>response_text = ''Your loan has been processed.'', user_input_requests = []\<rparr>,
                \<lparr>st_balance = 100,
                 executed = [\<lparr>call_name = ''get_balance'', call_amount = 0, call_reason = []\<rparr>]\<rparr>))"
proof -
  let ?tools = "[get_balance_tool (\<lambda>x::real. []), make_payment_tool (\<lambda>x. [])] @ [get_loan_tool (\<lambda>x. [])]"
  let ?call = "\<lparr>call_name = ''get_loan'', call_amount = 150::real, call_reason = []\<rparr>"
  let ?ask = "\<lparr>call_name = ''get_balance'', call_amount = 0::real, call_reason = []\<rparr>"
  let ?st = "\<lparr>st_balance = initial_balance, executed = []\<rparr>"
  let ?st1 = "\<lparr>st_balance = initial_balance, executed = [?ask]\<rparr>"
  let ?conv1 = "[TextContent loan_query, FunctionResultContent ?ask ''The balance for is $.'']"
  let ?paused = "\<lparr>response_text = [], user_input_requests = [?call]\<rparr>"
  let ?final = "\<lparr>response_text = ''Your loan has been processed.'', user_input_requests = []\<rparr>"
  have ask: "execute_call ?tools ?ask ?st = (FunctionResultContent ?ask ''The balance for is $.'', ?st1)"
    by (simp add: execute_call_def find_tool_def get_balance_tool_def make_payment_tool_def
        get_loan_tool_def get_balance_def Let_def)
  have ungated: "\<not> gated ?tools ?ask"
    by (simp add: gated_def find_tool_def get_balance_tool_def make_payment_tool_def get_loan_tool_def)
  have step1: "sample_llm [TextContent loan_query] = FunctionCalls [?ask]"
    by (simp add: sample_llm_def has_result_def)
  have step2: "sample_llm ?conv1 = FunctionCalls [?call]"
    by (simp add: sample_llm_def has_result_def)
  have reach: "advance (Suc 0) sample_llm ?tools
      ([TextContent loan_query] @ fst (apply_approvals ?tools [TextContent loan_query] ?st))
      (snd (apply_approvals ?tools [TextContent loan_query] ?st)) = Some (?conv1, ?st1)"
    using step1 ungated ask by (simp add: Let_def)
  have first: "agent_run sample_llm ?tools [TextContent loan_query] ?st = Some (?paused, ?st1)"
    using approval_gated_tool_suspends
      [where n = "Suc 0" and llm = sample_llm and tools = ?tools and inputs = "[TextContent loan_query]"
         and st = ?st and conv = ?conv1 and ?st1.0 = ?st1 and calls = "[?call]" and c = ?call,
       THEN conjunct1]
      reach step2 get_loan_gated [of "\<lambda>x::real. []" 150 "[]"]
    by simp
  have run_loan: "execute_call ?tools ?call ?st1 =
      (FunctionResultContent ?call ''Processing loan request of $.'',
       \<lparr>st_balance = 250, executed = [?ask, ?call]\<rparr>)"
    by (simp add: execute_call_def find_tool_def get_balance_tool_def make_payment_tool_def
        get_loan_tool_def get_loan_def initial_balance_def Let_def)
  have yes: "agent_run sample_llm ?tools
      [TextContent loan_query, FunctionApprovalRequestContent ?call,
       FunctionApprovalResponseContent True ?call] ?st1 =
      Some (?final, \<lparr>st_balance = 250, executed = [?ask, ?call]\<rparr>)"
    using run_loan
    by (simp add: agent_run_def Let_def agent_loop_answer sample_llm_def has_result_def)
  have no: "agent_run sample_llm ?tools
      [TextContent loan_query, FunctionApprovalRequestContent ?call,
       FunctionApprovalResponseContent False ?call] ?st1 =
      Some (?final, \<lparr>st_balance = 100, executed = [?ask]\<rparr>)"
    by (simp add: agent_run_def Let_def agent_loop_answer sample_llm_def has_result_def
        initial_balance_def)
  have "approval_loop (agent_run sample_llm ?tools) loan_query ?paused ?st1 [''y''] =
      approval_loop (agent_run sample_llm ?tools) loan_query ?final
        \<lparr>st_balance = 250, executed = [?ask, ?call]\<rparr> []"
    using approval_loop_again
      [where r = ?paused and answers = "[''y'']" and run_agent = "agent_run sample_llm ?tools"
         and got = "([FunctionApprovalRequestContent ?call, FunctionApprovalResponseContent True ?call], [])"
         and next_result = "(?final, \<lparr>st_balance = 250, executed = [?ask, ?call]\<rparr>)"
         and query = loan_query and st = ?st1] yes
    by (simp add: lower_y)
  then have main_yes: "loan_main sample_llm (\<lambda>x. []) [''y''] ?st =
      Some (Inr (?final, \<lparr>st_balance = 250, executed = [?ask, ?call]\<rparr>))"
    using first
    by (simp add: loan_main_def approval_loop_done)
  have "approval_loop (agent_run sample_llm ?tools) loan_query ?paused ?st1 [''n''] =
      approval_loop (agent_run sample_llm ?tools) loan_query ?final
        \<lparr>st_balance = 100, executed = [?ask]\<rparr> []"
    using approval_loop_again
      [where r = ?paused and answers = "[''n'']" and run_agent = "agent_run sample_llm ?tools"
         and got = "([FunctionApprovalRequestContent ?call, FunctionApprovalResponseContent False ?call], [])"
         and next_result = "(?final, \<lparr>st_balance = 100, executed = [?ask]\<rparr>)"
         and query = loan_query and st = ?st1] no
    by (simp add: lower_n)
  then have main_no: "loan_main sample_llm (\<lambda>x. []) [''n''] ?st =
      Some (Inr (?final, \<lparr>st_balance = 100, executed = [?ask]\<rparr>))"
    using first
    by (simp add: loan_main_def approval_loop_done)
  from first main_yes main_no show ?thesis
    by (intro conjI)
qed

end
